theory Spec2Isabelle
  imports Main
begin

section \<open>The balanced splitter of \<^verbatim>\<open>src/utils.py\<close>\<close>

text \<open>
  \<^verbatim>\<open>balanced_split(y, print_flag=True)\<close> walks once over the labels \<open>y\<close>. Its local
  variables are the list \<open>selected_indices\<close>, to which every iteration appends one marker
  (\<open>-1\<close> for training, \<open>1\<close> for validation), and four counters. Labels and counters
  are Python integers, hence \<open>int\<close>. The local variables form the state of the loop.
\<close>

record split_state =
  selected_indices :: "int list"
  norm_train :: int
  norm_test :: int
  out_train :: int
  out_test :: int

text \<open>Lines 96 to 100: the initial values.\<close>

definition init_state :: split_state where
  "init_state =
     \<lparr>selected_indices = [], norm_train = 0, norm_test = 0, out_train = 0, out_test = 0\<rparr>"

text \<open>
  Lines 102 to 115: the body of the loop for one label \<open>v\<close>. The test \<^verbatim>\<open>v==1\<close>
  separates the outliers from everything else: the \<^verbatim>\<open>else\<close> branch takes every label
  that is not \<open>1\<close>, and no branch raises.
\<close>

definition loop_body :: "int \<Rightarrow> split_state \<Rightarrow> split_state" where
  "loop_body v s =
     (if v = 1 then
        (if out_train s > 0 then
           s\<lparr>selected_indices := selected_indices s @ [1], out_test := out_test s + 1\<rparr>
         else
           s\<lparr>selected_indices := selected_indices s @ [- 1], out_train := out_train s + 1\<rparr>)
      else
        (if out_test s > norm_test s then
           s\<lparr>selected_indices := selected_indices s @ [1], norm_test := norm_test s + 1\<rparr>
         else
           s\<lparr>selected_indices := selected_indices s @ [- 1], norm_train := norm_train s + 1\<rparr>))"

text \<open>Line 101: \<^verbatim>\<open>for v in y\<close>, the labels in their order.\<close>

fun for_loop :: "int list \<Rightarrow> split_state \<Rightarrow> split_state" where
  "for_loop [] s = s"
| "for_loop (v # y) s = for_loop y (loop_body v s)"

text \<open>
  The states the loop goes through: element \<open>k\<close> is the state after \<open>k\<close> labels have
  been processed, the last one is the state \<open>for_loop\<close> ends in.
\<close>

fun states :: "int list \<Rightarrow> split_state \<Rightarrow> split_state list" where
  "states [] s = [s]"
| "states (v # y) s = s # states y (loop_body v s)"

text \<open>
  Lines 117 to 122: the five lines printed when \<open>print_flag\<close> holds, each a label
  and a number.
\<close>

definition prints :: "int list \<Rightarrow> split_state \<Rightarrow> (string \<times> int) list" where
  "prints y s =
     [(''Number of total samples to split:'', int (length y)),
      (''Number of outliers in training:'', out_train s),
      (''Number of outliers in test:'', out_test s),
      (''Number of normal points in training:'', norm_train s),
      (''Number of normal points in test:'', norm_test s)]"

text \<open>
  The whole function: what it wrote to the standard output, and the list it returns
  (line 124).
\<close>

definition balanced_split :: "int list \<Rightarrow> bool \<Rightarrow> (string \<times> int) list \<times> int list" where
  "balanced_split y print_flag =
     (let s = for_loop y init_state
      in (if print_flag then prints y s else [], selected_indices s))"

text \<open>The four counters of a state, in the order the specification's traces give them.\<close>

definition counters :: "split_state \<Rightarrow> int \<times> int \<times> int \<times> int" where
  "counters s = (out_train s, out_test s, norm_train s, norm_test s)"

text \<open>
  The marker one iteration appends, read off the four branches of \<open>loop_body\<close>
  (lemma \<open>selected_loop_body\<close> below relates the two).
\<close>

definition marker :: "int \<Rightarrow> split_state \<Rightarrow> int" where
  "marker v s =
     (if v = 1 then (if out_train s > 0 then 1 else - 1)
      else (if out_test s > norm_test s then 1 else - 1))"

section \<open>The loop, one label at a time\<close>

lemma for_loop_append: "for_loop (xs @ ys) s = for_loop ys (for_loop xs s)"
  by (induction xs arbitrary: s) simp_all

lemma for_loop_snoc: "for_loop (xs @ [v]) s = loop_body v (for_loop xs s)"
  by (simp add: for_loop_append)

lemma length_states: "length (states y s) = Suc (length y)"
  by (induction y arbitrary: s) simp_all

lemma states_nth: "k \<le> length y \<Longrightarrow> states y s ! k = for_loop (take k y) s"
proof (induction y arbitrary: k s)
  case Nil
  then show ?case by simp
next
  case (Cons v y)
  then show ?case by (cases k) simp_all
qed

lemma for_loop_take_Suc:
  "k < length y \<Longrightarrow> for_loop (take (Suc k) y) s = loop_body (y ! k) (for_loop (take k y) s)"
  by (simp add: take_Suc_conv_app_nth for_loop_snoc)

lemma selected_loop_body:
  "selected_indices (loop_body v s) = selected_indices s @ [marker v s]"
  by (simp add: loop_body_def marker_def)

lemma length_selected_for_loop:
  "length (selected_indices (for_loop y s)) = length (selected_indices s) + length y"
  by (induction y arbitrary: s) (simp_all add: selected_loop_body)

lemma selected_for_loop_prefix:
  "take (length (selected_indices s)) (selected_indices (for_loop y s)) = selected_indices s"
proof (induction y arbitrary: s)
  case Nil
  then show ?case by simp
next
  case (Cons v y)
  have "take (length (selected_indices s)) (selected_indices (for_loop (v # y) s)) =
        take (length (selected_indices s))
          (take (length (selected_indices (loop_body v s)))
             (selected_indices (for_loop y (loop_body v s))))"
    by (simp add: selected_loop_body min_def)
  also have "\<dots> = take (length (selected_indices s)) (selected_indices (loop_body v s))"
    by (simp only: Cons.IH)
  also have "\<dots> = selected_indices s"
    by (simp add: selected_loop_body)
  finally show ?case .
qed

lemma selected_take:
  "k \<le> length y \<Longrightarrow>
   selected_indices (for_loop (take k y) init_state) = take k (selected_indices (for_loop y init_state))"
proof -
  assume k: "k \<le> length y"
  have "for_loop y init_state = for_loop (drop k y) (for_loop (take k y) init_state)"
    by (simp add: for_loop_append [symmetric])
  moreover have "length (selected_indices (for_loop (take k y) init_state)) = k"
    using k by (simp add: length_selected_for_loop init_state_def)
  ultimately show ?thesis
    using selected_for_loop_prefix [of "for_loop (take k y) init_state" "drop k y"] by simp
qed

lemma selected_nth:
  assumes "k < length y"
  shows "selected_indices (for_loop y init_state) ! k = marker (y ! k) (for_loop (take k y) init_state)"
proof -
  have "selected_indices (for_loop y init_state) ! k =
        take (Suc k) (selected_indices (for_loop y init_state)) ! k"
    by simp
  also have "\<dots> = selected_indices (for_loop (take (Suc k) y) init_state) ! k"
    using assms by (simp add: selected_take)
  also have "\<dots> = marker (y ! k) (for_loop (take k y) init_state)"
    using assms
    by (simp add: for_loop_take_Suc selected_loop_body nth_append length_selected_for_loop init_state_def)
  finally show ?thesis .
qed

section \<open>What the loop preserves\<close>

lemma balanced_split_snd: "snd (balanced_split y f) = selected_indices (for_loop y init_state)"
  by (simp add: balanced_split_def Let_def)

lemma set_selected_for_loop:
  "set (selected_indices (for_loop y s)) \<subseteq> set (selected_indices s) \<union> {- 1, 1}"
proof (induction y arbitrary: s)
  case Nil
  show ?case by auto
next
  case (Cons v y)
  have "set (selected_indices (loop_body v s)) \<subseteq> set (selected_indices s) \<union> {- 1, 1}"
    by (auto simp: selected_loop_body marker_def)
  with Cons.IH [of "loop_body v s"] show ?case by auto
qed

lemma count_two_markers:
  "set xs \<subseteq> {a, b} \<Longrightarrow> a \<noteq> b \<Longrightarrow> count_list xs a + count_list xs b = length xs"
  by (induction xs) auto

lemma out_train_loop_body:
  "0 \<le> out_train s \<and> out_train s \<le> 1 \<Longrightarrow>
   0 \<le> out_train (loop_body v s) \<and> out_train (loop_body v s) \<le> 1"
  by (simp add: loop_body_def)

lemma out_train_mono_body: "out_train s \<le> out_train (loop_body v s)"
  by (simp add: loop_body_def)

lemma out_train_mono: "out_train s \<le> out_train (for_loop y s)"
proof (induction y arbitrary: s)
  case Nil
  then show ?case by simp
next
  case (Cons v y)
  from out_train_mono_body [of s v] Cons.IH [of "loop_body v s"] show ?case by simp
qed

lemma out_train_after_outlier: "0 \<le> out_train s \<Longrightarrow> 0 < out_train (loop_body 1 s)"
  by (simp add: loop_body_def)

lemma out_train_nonneg: "0 \<le> out_train s \<Longrightarrow> 0 \<le> out_train (for_loop y s)"
  using out_train_mono [of s y] by simp

lemma out_train_no_outlier:
  "\<forall>v \<in> set y. v \<noteq> 1 \<Longrightarrow> out_train (for_loop y s) = out_train s"
  by (induction y arbitrary: s) (simp_all add: loop_body_def)

lemma validation_loop_body:
  "norm_test s \<le> out_test s \<Longrightarrow> norm_test (loop_body v s) \<le> out_test (loop_body v s)"
  by (simp add: loop_body_def)

lemma validation_for_loop:
  "norm_test s \<le> out_test s \<Longrightarrow> norm_test (for_loop y s) \<le> out_test (for_loop y s)"
  by (induction y arbitrary: s) (simp_all add: validation_loop_body)

lemma first_outlier:
  assumes "i < length y" "y ! i = 1" "\<forall>j<i. y ! j \<noteq> 1"
  shows "selected_indices (for_loop y init_state) ! i = - 1"
proof -
  have "\<forall>v \<in> set (take i y). v \<noteq> 1"
    using assms(1,3) by (auto simp: in_set_conv_nth)
  then have "out_train (for_loop (take i y) init_state) = 0"
    by (simp add: out_train_no_outlier init_state_def)
  then show ?thesis
    using assms(1,2) by (simp add: selected_nth marker_def)
qed

lemma later_outlier:
  assumes "i < j" "j < length y" "y ! i = 1" "y ! j = 1"
  shows "selected_indices (for_loop y init_state) ! j = 1"
proof -
  let ?si = "for_loop (take i y) init_state"
  have i: "i < length y" using assms(1,2) by simp
  have "take j y = take (Suc i) y @ drop (Suc i) (take j y)"
    using assms(1) by (metis Suc_leI append_take_drop_id min.absorb2 min.commute take_take)
  then have "for_loop (take j y) init_state =
        for_loop (drop (Suc i) (take j y)) (loop_body 1 ?si)"
    using i assms(3) by (metis for_loop_append for_loop_take_Suc)
  moreover have "0 \<le> out_train ?si"
    by (rule out_train_nonneg) (simp add: init_state_def)
  ultimately have "0 < out_train (for_loop (take j y) init_state)"
    using out_train_after_outlier [of ?si]
      out_train_mono [of "loop_body 1 ?si" "drop (Suc i) (take j y)"] by simp
  then show ?thesis
    using assms(2,4) by (simp add: selected_nth marker_def)
qed

lemma zip_take_Suc:
  "k < length y \<Longrightarrow> length z = length y \<Longrightarrow>
   take (Suc k) (zip y z) = take k (zip y z) @ [(y ! k, z ! k)]"
  by (simp add: take_Suc_conv_app_nth)

lemma counters_count:
  "k \<le> length y \<Longrightarrow>
   out_train (for_loop (take k y) init_state) =
     int (length (filter (\<lambda>(v, a). v = 1 \<and> a = - 1)
       (take k (zip y (selected_indices (for_loop y init_state)))))) \<and>
   out_test (for_loop (take k y) init_state) =
     int (length (filter (\<lambda>(v, a). v = 1 \<and> a = 1)
       (take k (zip y (selected_indices (for_loop y init_state)))))) \<and>
   norm_train (for_loop (take k y) init_state) =
     int (length (filter (\<lambda>(v, a). v \<noteq> 1 \<and> a = - 1)
       (take k (zip y (selected_indices (for_loop y init_state)))))) \<and>
   norm_test (for_loop (take k y) init_state) =
     int (length (filter (\<lambda>(v, a). v \<noteq> 1 \<and> a = 1)
       (take k (zip y (selected_indices (for_loop y init_state))))))"
proof (induction k)
  case 0
  then show ?case by (simp add: init_state_def)
next
  case (Suc k)
  then have k: "k < length y" and kl: "k \<le> length y" by simp_all
  have len: "length (selected_indices (for_loop y init_state)) = length y"
    by (simp add: length_selected_for_loop init_state_def)
  note z = zip_take_Suc [OF k len]
  note n = selected_nth [OF k]
  note st = for_loop_take_Suc [OF k, of init_state]
  from Suc.IH [OF kl] show ?case
    unfolding z n st by (simp add: marker_def loop_body_def)
qed

lemma sum_loop_body:
  "out_train (loop_body v s) + out_test (loop_body v s) + norm_train (loop_body v s) +
     norm_test (loop_body v s) =
   out_train s + out_test s + norm_train s + norm_test s + 1"
  by (simp add: loop_body_def)

lemma sum_for_loop:
  "out_train (for_loop y s) + out_test (for_loop y s) + norm_train (for_loop y s) +
     norm_test (for_loop y s) =
   out_train s + out_test s + norm_train s + norm_test s + int (length y)"
proof (induction y arbitrary: s)
  case Nil
  show ?case by simp
next
  case (Cons v y)
  show ?case
    using Cons.IH [of "loop_body v s"] sum_loop_body [of v s] by simp
qed

lemma loop_body_normalise: "loop_body (if v = 1 then 1 else 0) s = loop_body v s"
  by (simp add: loop_body_def)

lemma for_loop_normalise: "for_loop (map (\<lambda>v. if v = 1 then 1 else 0) y) s = for_loop y s"
  by (induction y arbitrary: s) (simp_all add: loop_body_normalise)

lemma for_loop_all_normal:
  "out_test s \<le> norm_test s \<Longrightarrow>
   selected_indices (for_loop (replicate n 0) s) = selected_indices s @ replicate n (- 1)"
proof (induction n arbitrary: s)
  case 0
  show ?case by simp
next
  case (Suc n)
  from Suc.prems have b: "loop_body 0 s =
      s\<lparr>selected_indices := selected_indices s @ [- 1], norm_train := norm_train s + 1\<rparr>"
    by (simp add: loop_body_def)
  from Suc.prems show ?case
    by (simp add: b Suc.IH replicate_app_Cons_same)
qed

lemma out_train_range:
  "0 \<le> out_train s \<and> out_train s \<le> 1 \<Longrightarrow>
   0 \<le> out_train (for_loop y s) \<and> out_train (for_loop y s) \<le> 1"
proof (induction y arbitrary: s)
  case Nil
  then show ?case by simp
next
  case (Cons v y)
  from Cons.prems have "0 \<le> out_train (loop_body v s) \<and> out_train (loop_body v s) \<le> 1"
    by (rule out_train_loop_body)
  then show ?case by (simp add: Cons.IH)
qed

section \<open>Shape of the result\<close>

text \<open>
  Claim C1. For every label sequence \<open>y\<close> of length \<open>N\<close>, the empty one included,
  \<open>balanced_split\<close> returns exactly \<open>N\<close> markers, each of them \<open>-1\<close> (TRAIN) or
  \<open>1\<close> (VALIDATION), so the number of TRAIN markers plus the number of VALIDATION
  markers is \<open>N\<close>; on the empty sequence the result is empty. It holds for every list
  of integers, binary or not.
\<close>

theorem balanced_split_length_markers:
  "length (snd (balanced_split y print_flag)) = length y \<and>
   set (snd (balanced_split y print_flag)) \<subseteq> {- 1, 1} \<and>
   count_list (snd (balanced_split y print_flag)) (- 1) +
     count_list (snd (balanced_split y print_flag)) 1 = length y \<and>
   snd (balanced_split [] print_flag) = []"
proof -
  let ?out = "snd (balanced_split y print_flag)"
  have len: "length ?out = length y"
    by (simp add: balanced_split_snd length_selected_for_loop init_state_def)
  have mem: "set ?out \<subseteq> {- 1, 1}"
    using set_selected_for_loop [of y init_state]
    by (simp add: balanced_split_snd init_state_def)
  have "count_list ?out (- 1) + count_list ?out 1 = length ?out"
    using mem by (rule count_two_markers) simp
  moreover have "snd (balanced_split [] print_flag) = []"
    by (simp add: balanced_split_snd init_state_def)
  ultimately show ?thesis using len mem by simp
qed

section \<open>Where the outliers go\<close>

text \<open>
  Claim C2. At most one position whose label is an outlier (\<open>1\<close>) is assigned TRAIN:
  the positions of \<open>y\<close> paired with their markers hold at most one pair \<open>(1, -1)\<close>, and
  every outlier that comes after another outlier is assigned VALIDATION.
\<close>

theorem balanced_split_one_outlier_in_train:
  "length (filter (\<lambda>(v, a). v = 1 \<and> a = - 1) (zip y (snd (balanced_split y print_flag)))) \<le> 1 \<and>
   (\<forall>i j. i < j \<longrightarrow> j < length y \<longrightarrow> y ! i = 1 \<longrightarrow> y ! j = 1 \<longrightarrow>
      snd (balanced_split y print_flag) ! j = 1)"
proof -
  let ?s = "for_loop y init_state"
  have "0 \<le> out_train init_state \<and> out_train init_state \<le> 1"
    by (simp add: init_state_def)
  then have "out_train ?s \<le> 1"
    using out_train_range [of init_state y] by simp
  moreover have "out_train ?s =
      int (length (filter (\<lambda>(v, a). v = 1 \<and> a = - 1) (zip y (selected_indices ?s))))"
    using counters_count [of "length y" y] by simp
  ultimately show ?thesis
    by (simp add: balanced_split_snd later_outlier)
qed

text \<open>
  On \<open>[1, 0, 1, 1]\<close> the outlier at position 2 follows the one at position 0 and is
  assigned VALIDATION.
\<close>

theorem balanced_split_one_outlier_in_train_witness:
  "length (filter (\<lambda>(v, a). v = 1 \<and> a = - 1)
     (zip [1, 0, 1, 1 :: int] (snd (balanced_split [1, 0, 1, 1] True)))) \<le> 1 \<and>
   snd (balanced_split [1, 0, 1, 1] True) ! 2 = 1"
proof -
  note t = balanced_split_one_outlier_in_train [of "[1, 0, 1, 1]" True]
  from t have "(0::nat) < 2 \<longrightarrow> 2 < length [1, 0, 1, 1 :: int] \<longrightarrow>
      [1, 0, 1, 1 :: int] ! 0 = 1 \<longrightarrow> [1, 0, 1, 1 :: int] ! 2 = 1 \<longrightarrow>
      snd (balanced_split [1, 0, 1, 1] True) ! 2 = 1"
    by blast
  then have "snd (balanced_split [1, 0, 1, 1] True) ! 2 = 1"
    by simp
  with t show ?thesis by simp
qed

text \<open>
  Claim C3. When the sequence holds an outlier, the first outlier (position \<open>i\<close>, with
  no \<open>1\<close> before it) is assigned TRAIN.
\<close>

theorem balanced_split_first_outlier_train:
  "i < length y \<Longrightarrow> y ! i = 1 \<Longrightarrow> \<forall>j<i. y ! j \<noteq> 1 \<Longrightarrow>
   snd (balanced_split y print_flag) ! i = - 1"
  by (simp add: balanced_split_snd first_outlier)

theorem balanced_split_first_outlier_train_witness:
  "snd (balanced_split [0, 1, 1] True) ! 1 = - 1"
  by (rule balanced_split_first_outlier_train) (simp_all add: less_Suc_eq)

section \<open>Labels other than 0 and 1\<close>

text \<open>
  Claim C4 says that a label outside \<open>{0, 1}\<close>, such as 2, makes \<open>balanced_split\<close>
  fail with an InvalidInput error. The source has no such check: the loop tests
  \<^verbatim>\<open>v==1\<close> and its \<^verbatim>\<open>else\<close> branch takes every other label. On \<open>[2]\<close> the
  function runs to its end, prints one normal point in training and returns \<open>[-1]\<close>.
\<close>

theorem balanced_split_invalid_label_counterexample:
  "balanced_split [2] True =
     ([(''Number of total samples to split:'', 1),
       (''Number of outliers in training:'', 0),
       (''Number of outliers in test:'', 0),
       (''Number of normal points in training:'', 1),
       (''Number of normal points in test:'', 0)],
      [- 1])"
  by (simp add: balanced_split_def init_state_def loop_body_def prints_def)

text \<open>
  Claim C4, as amended. \<open>balanced_split\<close> raises no error on a label outside
  \<open>{0, 1}\<close>: it treats every label other than \<open>1\<close> as normal, so it returns what it
  returns on the sequence with each such label replaced by \<open>0\<close>, an assignment
  sequence of the length of the input.
\<close>

theorem balanced_split_non_outlier_is_normal:
  "snd (balanced_split y print_flag) =
     snd (balanced_split (map (\<lambda>v. if v = 1 then 1 else 0) y) print_flag) \<and>
   length (snd (balanced_split y print_flag)) = length y"
  by (simp add: balanced_split_snd for_loop_normalise length_selected_for_loop init_state_def)

section \<open>Scenarios\<close>

text \<open>
  Claim C5. On a sequence of zeros only, of any length \<open>n\<close>, every position is assigned
  TRAIN; in particular \<open>[0,0,0,0]\<close> gives \<open>[-1,-1,-1,-1]\<close>.
\<close>

theorem balanced_split_all_normal:
  "snd (balanced_split (replicate n 0) print_flag) = replicate n (- 1) \<and>
   snd (balanced_split [0, 0, 0, 0] print_flag) = [- 1, - 1, - 1, - 1]"
proof -
  have "selected_indices (for_loop (replicate n 0) init_state) =
        selected_indices init_state @ replicate n (- 1)"
    by (rule for_loop_all_normal) (simp add: init_state_def)
  then have "snd (balanced_split (replicate n 0) print_flag) = replicate n (- 1)"
    by (simp add: balanced_split_snd init_state_def)
  moreover have "snd (balanced_split [0, 0, 0, 0] print_flag) = [- 1, - 1, - 1, - 1]"
    by (simp add: balanced_split_def init_state_def loop_body_def)
  ultimately show ?thesis by simp
qed

text \<open>
  Claim C6. On \<open>[1,0,1,0,0]\<close> the splitter returns
  \<open>[TRAIN, TRAIN, VALIDATION, VALIDATION, TRAIN]\<close>, that is \<open>[-1,-1,1,1,-1]\<close>, and
  the counters (outliers in train, outliers in validation, normals in train, normals
  in validation) evolve as the specification traces them: first the outlier counter
  of train becomes 1, then the normal counter of train becomes 1, then the outlier
  counter of validation becomes 1, then the normal counter of validation becomes 1,
  then the normal counter of train becomes 2.
\<close>

theorem balanced_split_mixed_scenario:
  "snd (balanced_split [1, 0, 1, 0, 0] print_flag) = [- 1, - 1, 1, 1, - 1] \<and>
   map counters (states [1, 0, 1, 0, 0] init_state) =
     [(0, 0, 0, 0), (1, 0, 0, 0), (1, 0, 1, 0), (1, 1, 1, 0), (1, 1, 1, 1), (1, 1, 2, 1)]"
  by (simp add: balanced_split_def init_state_def loop_body_def counters_def)

text \<open>
  Claim C7. On the input \<open>[1,1,1]\<close> the splitter returns
  \<open>[TRAIN, VALIDATION, VALIDATION]\<close>, that is \<open>[-1, 1, 1]\<close>.
\<close>

theorem balanced_split_all_outliers_scenario:
  "snd (balanced_split [1, 1, 1] print_flag) = [- 1, 1, 1]"
  by (simp add: balanced_split_def init_state_def loop_body_def)

section \<open>The counters\<close>

text \<open>
  Claim C8. After each prefix of \<open>k\<close> labels has been processed, the four counters
  add up to \<open>k\<close>, the number of samples processed so far.
\<close>

theorem counters_sum_processed:
  "k \<le> length y \<Longrightarrow>
   out_train (states y init_state ! k) + out_test (states y init_state ! k) +
     norm_train (states y init_state ! k) + norm_test (states y init_state ! k) = int k"
  using sum_for_loop [of "take k y" init_state]
  by (simp add: states_nth init_state_def)

theorem counters_sum_processed_witness:
  "out_train (states [1, 0, 1] init_state ! 2) + out_test (states [1, 0, 1] init_state ! 2) +
     norm_train (states [1, 0, 1] init_state ! 2) + norm_test (states [1, 0, 1] init_state ! 2) = 2"
  using counters_sum_processed [of 2 "[1, 0, 1]"] by simp

text \<open>
  Claim C10. After each prefix of \<open>k\<close> labels, the counter of normals in validation
  is at most the counter of outliers in validation, and among the first \<open>k\<close> positions
  of the result no more normals than outliers are assigned VALIDATION.
\<close>

theorem validation_normals_bounded:
  "k \<le> length y \<Longrightarrow>
   norm_test (states y init_state ! k) \<le> out_test (states y init_state ! k) \<and>
   length (filter (\<lambda>(v, a). v \<noteq> 1 \<and> a = 1) (take k (zip y (snd (balanced_split y print_flag)))))
     \<le> length (filter (\<lambda>(v, a). v = 1 \<and> a = 1)
          (take k (zip y (snd (balanced_split y print_flag)))))"
proof -
  assume k: "k \<le> length y"
  have "norm_test (for_loop (take k y) init_state) \<le> out_test (for_loop (take k y) init_state)"
    by (rule validation_for_loop) (simp add: init_state_def)
  then show ?thesis
    using k counters_count [OF k] by (simp add: states_nth balanced_split_snd)
qed

theorem validation_normals_bounded_witness:
  "norm_test (states [1, 1, 0, 0] init_state ! 3) \<le> out_test (states [1, 1, 0, 0] init_state ! 3) \<and>
   length (filter (\<lambda>(v, a). v \<noteq> 1 \<and> a = 1)
       (take 3 (zip [1, 1, 0, 0 :: int] (snd (balanced_split [1, 1, 0, 0] True)))))
     \<le> length (filter (\<lambda>(v, a). v = 1 \<and> a = 1)
          (take 3 (zip [1, 1, 0, 0 :: int] (snd (balanced_split [1, 1, 0, 0] True)))))"
  by (rule validation_normals_bounded) simp

end
